theory Spec2Isabelle
  imports Complex_Main
begin

section \<open>The state of \<open>MainWindow::Impl\<close>\<close>

text \<open>
  The model follows \<^verbatim>\<open>src/rqt_bag_player/mainwindow.cpp\<close>. The member variables of
  \<^verbatim>\<open>MainWindow::Impl\<close> and the part of the widgets' state the slots read and write are the
  fields of one record; every slot is a function from that record to its successor.

  \<^item> A \<^verbatim>\<open>QTreeWidget\<close> of top-level items with a text and a check box is the list of its
    items in display order, each a pair of the text and whether it is \<^verbatim>\<open>Qt::Checked\<close>.
  \<^item> \<^verbatim>\<open>QProcess::startDetached(program, arguments)\<close> is fire and forget; the model appends
    the pair to \<open>spawned\<close>, the list of all launches in the order they were issued.
  \<^item> \<^verbatim>\<open>ros::Time::now().toNSec()\<close> is an input of the slots that read it (a
    \<^verbatim>\<open>uint64_t\<close>, rendered in decimal by \<^verbatim>\<open>QString::arg\<close>).
  \<^item> A finite \<^verbatim>\<open>double\<close> is the real number it denotes, and every floating point operation
    rounds its exact result to the nearest binary64 number (\<open>fl\<close>), a tie going to the even
    significand. An infinity and a NaN are the single value \<open>NotFinite\<close>; the sign of a zero
    is not modelled.
  \<^item> The \<^verbatim>\<open>int\<close> values of the slider are integers; the conversion of a \<^verbatim>\<open>double\<close> to
    \<^verbatim>\<open>int\<close> is defined only when the truncated value fits 32 bits.
\<close>

datatype arg = Text string | Number real
  \<comment> \<open>an element of a \<^verbatim>\<open>QStringList\<close>: a literal text, or \<^verbatim>\<open>QString("%1").arg(d)\<close> for a double \<open>d\<close>\<close>

datatype double = Finite real | NotFinite

datatype error =
    FloatToIntUndefined  \<comment> \<open>a non-finite or too large \<^verbatim>\<open>double\<close> converted to \<^verbatim>\<open>int\<close>\<close>
  | SpinValueNotFinite   \<comment> \<open>a non-finite \<^verbatim>\<open>double\<close> handed to \<^verbatim>\<open>QDoubleSpinBox::setValue\<close>\<close>
  | BagException         \<comment> \<open>\<^verbatim>\<open>rosbag::Bag\<close> could not open the file; nothing catches it\<close>

record bag =
  view_begin_time :: int      \<comment> \<open>\<^verbatim>\<open>view.getBeginTime()\<close>, in nanoseconds\<close>
  view_end_time :: int        \<comment> \<open>\<^verbatim>\<open>view.getEndTime()\<close>, in nanoseconds\<close>
  view_connections :: "string list"  \<comment> \<open>the topic of each of \<^verbatim>\<open>view.getConnections()\<close>\<close>

record impl =
  recordAct_checked :: bool
  timer_active :: bool
  numTopics :: nat
  playTree :: "(string \<times> bool) list"
  recordTree :: "(string \<times> bool) list"
  beginTimeSpin :: real
  endTimeSpin :: real
  timeSpin :: real
  timeSlider :: int
  timeSlider_minimum :: int
  timeSlider_maximum :: int
  recordNode :: string
  playNode :: string
  filePath :: string
  begin_time :: int
  end_time :: int
  is_recording :: bool
  is_playing :: bool
  is_loop_checked :: bool
  is_clock_checked :: bool
  rate :: real
  spawned :: "(string \<times> arg list) list"

text \<open>The state the constructor \<^verbatim>\<open>Impl::Impl\<close>, \<^verbatim>\<open>createActions\<close> and \<^verbatim>\<open>createToolBars\<close> build.\<close>

definition Impl :: impl where
  "Impl = \<lparr> recordAct_checked = False, timer_active = True, numTopics = 0,
      playTree = [], recordTree = [],
      beginTimeSpin = 0, endTimeSpin = 0, timeSpin = 0,
      timeSlider = 0, timeSlider_minimum = 0, timeSlider_maximum = 100,
      recordNode = [], playNode = [], filePath = [],
      begin_time = 0, end_time = 0,
      is_recording = False, is_playing = False,
      is_loop_checked = False, is_clock_checked = True, rate = 1,
      spawned = [] \<rparr>"

section \<open>Library behaviour the slots rely on\<close>

definition startDetached :: "string \<Rightarrow> arg list \<Rightarrow> impl \<Rightarrow> impl" where
  "startDetached program arguments s = s\<lparr>spawned := spawned s @ [(program, arguments)]\<rparr>"

text \<open>The decimal digits of a number, as \<^verbatim>\<open>QString::arg\<close> renders an unsigned integer.\<close>

fun decimal :: "nat \<Rightarrow> string" where
  "decimal n =
     (if n < 10 then [char_of (48 + n)]
      else decimal (n div 10) @ [char_of (48 + n mod 10)])"

declare decimal.simps [simp del]

text \<open>\<^verbatim>\<open>QString::chop(n)\<close> removes \<open>n\<close> characters from the end (all of them when there are fewer).\<close>

definition chop :: "nat \<Rightarrow> string \<Rightarrow> string" where
  "chop n str = take (length str - n) str"

text \<open>\<^verbatim>\<open>qBound(min, value, max)\<close>, with which \<^verbatim>\<open>QAbstractSlider::setValue\<close> keeps the value in range.\<close>

definition qBound :: "'a::linorder \<Rightarrow> 'a \<Rightarrow> 'a \<Rightarrow> 'a" where
  "qBound lo v hi = max lo (min hi v)"

subsection \<open>Double arithmetic\<close>

text \<open>
  Rounding to binary64, the default rounding of IEEE 754. A number \<open>x\<close> of the binade \<open>k\<close>,
  that is with \<open>2 ^ k \<le> \<bar>x\<bar> < 2 ^ (k + 1)\<close>, is rounded to the nearest multiple of
  \<open>2 ^ (k - 52)\<close>, the even multiple when two are equally near. Below \<open>2 ^ (- 1022)\<close> the
  multiples are those of \<open>2 ^ (- 1074)\<close>, the subnormal numbers. A result that rounds to
  \<open>2 ^ 1024\<close> or beyond overflows to an infinity.
\<close>

definition round_even :: "real \<Rightarrow> int" where
  "round_even y =
     (if y - real_of_int \<lfloor>y\<rfloor> < 1 / 2 then \<lfloor>y\<rfloor>
      else if 1 / 2 < y - real_of_int \<lfloor>y\<rfloor> then \<lfloor>y\<rfloor> + 1
      else if even \<lfloor>y\<rfloor> then \<lfloor>y\<rfloor> else \<lfloor>y\<rfloor> + 1)"

definition binade :: "real \<Rightarrow> int" where
  "binade x = max \<lfloor>log 2 \<bar>x\<bar>\<rfloor> (- 1022)"

definition ulp :: "real \<Rightarrow> real" where
  "ulp x = 2 powr real_of_int (binade x - 52)"

definition fl :: "real \<Rightarrow> real" where
  "fl x = (if x = 0 then 0 else real_of_int (round_even (x / ulp x)) * ulp x)"

definition double_of :: "real \<Rightarrow> double" where
  "double_of x = (if \<bar>fl x\<bar> < 2 ^ 1024 then Finite (fl x) else NotFinite)"

text \<open>
  The quotient of two finite doubles is an infinity or a NaN when the divisor is zero. The
  product of a finite double and a double is finite only when both are: an infinity times
  zero is a NaN.
\<close>

definition ddiv :: "real \<Rightarrow> real \<Rightarrow> double" where
  "ddiv x y = (if y = 0 then NotFinite else double_of (x / y))"

fun dmul :: "real \<Rightarrow> double \<Rightarrow> double" where
  "dmul x (Finite y) = double_of (x * y)"
| "dmul x NotFinite = NotFinite"

text \<open>
  The difference of the values of two spin boxes. The boxes are bounded to 0.0 .. 9999.0,
  so the difference cannot overflow.
\<close>

definition dsub :: "real \<Rightarrow> real \<Rightarrow> real" where
  "dsub x y = fl (x - y)"

text \<open>
  \<^verbatim>\<open>QDoubleSpinBox::setValue\<close> rounds its argument to the box's decimals (two, the default)
  and bounds it to the range, which \<^verbatim>\<open>createToolBars\<close> sets to 0.0 .. 9999.0 for all three
  spin boxes. The rounding is to the nearest hundredth, a tie going up, and the box holds
  the double nearest to that decimal number.
\<close>

definition spin_value :: "real \<Rightarrow> real" where
  "spin_value v = qBound 0 (fl (real_of_int (round (v * 100)) / 100)) 9999"

text \<open>
  The implicit conversion of a \<^verbatim>\<open>double\<close> to \<^verbatim>\<open>int\<close> truncates toward zero; its behaviour is
  undefined when the truncated value is not an \<^verbatim>\<open>int\<close>, so for every infinity and NaN.
\<close>

definition trunc :: "real \<Rightarrow> int" where
  "trunc x = (if 0 \<le> x then \<lfloor>x\<rfloor> else \<lceil>x\<rceil>)"

fun double_to_int :: "double \<Rightarrow> int option" where
  "double_to_int (Finite x) =
     (if - 2147483648 \<le> trunc x \<and> trunc x \<le> 2147483647 then Some (trunc x) else None)"
| "double_to_int NotFinite = None"

text \<open>The texts of the checked items, in order: the loops that append \<^verbatim>\<open>item->text(0)\<close>.\<close>

fun checked_texts :: "(string \<times> bool) list \<Rightarrow> arg list" where
  "checked_texts [] = []"
| "checked_texts ((text, checked) # items) =
     (if checked then Text text # checked_texts items else checked_texts items)"

section \<open>The slots\<close>

subsection \<open>Time spin box and slider\<close>

definition on_timeSpin_valueChanged :: "real \<Rightarrow> impl \<Rightarrow> error + impl" where
  "on_timeSpin_valueChanged val s =
     (let min = timeSlider_minimum s;
          max = timeSlider_maximum s;
          duration = dsub (endTimeSpin s) (beginTimeSpin s);
          rate = ddiv val duration
      in case double_to_int (dmul (real_of_int (max - min)) rate) of
           None \<Rightarrow> Inl FloatToIntUndefined
         | Some v \<Rightarrow> Inr (s\<lparr>timeSlider := qBound min v max\<rparr>))"

definition on_timeSlider_valueChanged :: "int \<Rightarrow> impl \<Rightarrow> error + impl" where
  "on_timeSlider_valueChanged val s =
     (let min = timeSlider_minimum s;
          max = timeSlider_maximum s;
          rate = ddiv (real_of_int val) (real_of_int (max - min));
          duration = dsub (endTimeSpin s) (beginTimeSpin s)
      in case dmul duration rate of
           NotFinite \<Rightarrow> Inl SpinValueNotFinite
         | Finite v \<Rightarrow> Inr (s\<lparr>timeSpin := spin_value v\<rparr>))"

text \<open>
  \<^verbatim>\<open>timeSpin->setValue(v)\<close> with signals enabled: when the stored value changes,
  \<^verbatim>\<open>valueChanged\<close> runs \<^verbatim>\<open>on_timeSpin_valueChanged\<close>.
\<close>

definition timeSpin_setValue :: "real \<Rightarrow> impl \<Rightarrow> error + impl" where
  "timeSpin_setValue v s =
     (if spin_value v = timeSpin s then Inr s
      else on_timeSpin_valueChanged (spin_value v) (s\<lparr>timeSpin := spin_value v\<rparr>))"

text \<open>The user drags the slider: the value changes and \<^verbatim>\<open>on_timeSlider_valueChanged\<close> runs.\<close>

definition timeSlider_setValue :: "int \<Rightarrow> impl \<Rightarrow> error + impl" where
  "timeSlider_setValue v s =
     (let v' = qBound (timeSlider_minimum s) v (timeSlider_maximum s)
      in if v' = timeSlider s then Inr s
         else on_timeSlider_valueChanged v' (s\<lparr>timeSlider := v'\<rparr>))"

definition clockCallback :: "int \<Rightarrow> impl \<Rightarrow> error + impl" where
  "clockCallback clock s =
     timeSpin_setValue (real_of_int (clock - begin_time s) / 1000000000) s"

subsection \<open>Play and stop\<close>

definition play :: "nat \<Rightarrow> impl \<Rightarrow> impl" where
  "play now s =
     (if filePath s \<noteq> [] then
        (let arguments =
               [Text ''play'', Text (filePath s), Text ''-q'']
               @ (if is_clock_checked s then [Text ''--clock''] else [])
               @ [Text ''-r'', Number (rate s)]
               @ [Text ''-s'', Number (timeSpin s)]
               @ (if is_loop_checked s then [Text ''-l''] else [])
               @ [Text ''--topics'']
               @ checked_texts (playTree s);
             node = ''play_'' @ decimal now
         in (startDetached ''rosbag'' (arguments @ [Text (''__name:='' @ node)])
               (s\<lparr>playNode := node\<rparr>))\<lparr>is_playing := True\<rparr>)
      else s\<lparr>is_playing := False\<rparr>)"

definition stop :: "impl \<Rightarrow> impl" where
  "stop s =
     (if is_playing s then
        (startDetached ''rosnode'' [Text ''kill'', Text (''/'' @ playNode s)] s)
          \<lparr>is_playing := False\<rparr>
      else s)"

definition clickPlay :: "nat \<Rightarrow> impl \<Rightarrow> error + impl" where
  "clickPlay now s =
     (case timeSpin_setValue 0 s of Inl e \<Rightarrow> Inl e | Inr s' \<Rightarrow> Inr (play now s'))"

definition clickResume :: "nat \<Rightarrow> impl \<Rightarrow> impl" where
  "clickResume now s = (if is_playing s then stop s else play now s)"

subsection \<open>Record\<close>

text \<open>
  \<^verbatim>\<open>record\<close> is the slot of \<^verbatim>\<open>recordAct\<close>'s \<^verbatim>\<open>toggled\<close> signal, and it unchecks the action
  itself when the record tree is empty. \<^verbatim>\<open>QAction::setChecked(b)\<close> does nothing when the
  action already is in state \<open>b\<close>; otherwise it stores \<open>b\<close> and emits \<^verbatim>\<open>toggled(b)\<close>, which
  runs the slot before \<^verbatim>\<open>setChecked\<close> returns. The two are mutually recursive.
\<close>

function record_slot :: "bool \<Rightarrow> nat \<Rightarrow> impl \<Rightarrow> impl"
  and recordAct_setChecked :: "bool \<Rightarrow> nat \<Rightarrow> impl \<Rightarrow> impl" where
  "record_slot checked now s =
     (let count = length (recordTree s);
          s1 = (if count = 0 then recordAct_setChecked False now s else s)
      in if checked then
           (if count > 0 then
              (let arguments = [Text ''record''] @ checked_texts (recordTree s1);
                   node = ''record_'' @ decimal now
               in (startDetached ''rosbag'' (arguments @ [Text (''__name:='' @ node)])
                     (s1\<lparr>recordNode := node\<rparr>))\<lparr>is_recording := True\<rparr>)
            else s1\<lparr>is_recording := False\<rparr>)
         else
           (if is_recording s1 then
              startDetached ''rosnode'' [Text ''kill'', Text (''/'' @ recordNode s1)] s1
            else s1)\<lparr>is_recording := False\<rparr>)"
| "recordAct_setChecked b now s =
     (if recordAct_checked s = b then s
      else record_slot b now (s\<lparr>recordAct_checked := b\<rparr>))"
  by pat_completeness auto

termination
proof (relation "measure (\<lambda>x. case x of
          Inl (checked, now, s) \<Rightarrow> (if recordAct_checked s then 3 else 1)
        | Inr (b, now, s) \<Rightarrow> (if b then 4 else if recordAct_checked s then 2 else 0))")
qed auto

declare record_slot.simps [simp del] recordAct_setChecked.simps [simp del]

definition clickStop :: "nat \<Rightarrow> impl \<Rightarrow> impl" where
  "clickStop now s =
     stop (if is_recording s then recordAct_setChecked False now s else s)"

text \<open>The user clicks the checkable record action: \<^verbatim>\<open>QAction\<close> flips its state.\<close>

definition recordAct_toggle :: "nat \<Rightarrow> impl \<Rightarrow> impl" where
  "recordAct_toggle now s = recordAct_setChecked (\<not> recordAct_checked s) now s"

subsection \<open>Configuration and bulk checking\<close>

text \<open>The dialog's outcome (\<^verbatim>\<open>dialog.exec()\<close> and the three values it holds) is an input.\<close>

definition config :: "bool \<Rightarrow> bool \<Rightarrow> bool \<Rightarrow> real \<Rightarrow> impl \<Rightarrow> impl" where
  "config accepted loop clock r s =
     (if accepted then s\<lparr>is_loop_checked := loop, is_clock_checked := clock, rate := r\<rparr>
      else s)"

definition checkRecord :: "bool \<Rightarrow> impl \<Rightarrow> impl" where
  "checkRecord checked s = s\<lparr>recordTree := map (\<lambda>(text, _). (text, checked)) (recordTree s)\<rparr>"

definition checkPlay :: "bool \<Rightarrow> impl \<Rightarrow> impl" where
  "checkPlay checked s = s\<lparr>playTree := map (\<lambda>(text, _). (text, checked)) (playTree s)\<rparr>"

text \<open>The user clicks the check box of one item of a tree (nothing happens out of range).\<close>

definition toggle_item :: "nat \<Rightarrow> (string \<times> bool) list \<Rightarrow> (string \<times> bool) list" where
  "toggle_item i items =
     (if i < length items then items[i := (fst (items ! i), \<not> snd (items ! i))] else items)"

subsection \<open>Loading and saving\<close>

text \<open>
  What \<^verbatim>\<open>rosbag::Bag\<close> and \<^verbatim>\<open>rosbag::View\<close> read from the file is an input: \<open>None\<close> when the
  file cannot be opened (the constructor throws), the view's data otherwise. The tree gets
  one checked item for each connection, in the order of \<^verbatim>\<open>getConnections()\<close>.
\<close>

definition loadFile :: "string \<Rightarrow> bag option \<Rightarrow> impl \<Rightarrow> error + impl" where
  "loadFile fileName file s =
     (case file of
        None \<Rightarrow> Inl BagException
      | Some view \<Rightarrow>
          (let duration =
                 real_of_int (view_end_time view - view_begin_time view) / 1000000000
           in Inr (s\<lparr>filePath := fileName,
                     begin_time := view_begin_time view,
                     end_time := view_end_time view,
                     beginTimeSpin := spin_value 0,
                     endTimeSpin := spin_value duration,
                     playTree := map (\<lambda>topic. (topic, True)) (view_connections view)\<rparr>)))"

text \<open>
  The loop of \<^verbatim>\<open>saveFile\<close>: for each checked item it appends
  \<^verbatim>\<open>QString("'%1' or ").arg(item->text(0))\<close> to the option.
\<close>

definition apostrophe :: char where
  "apostrophe = CHR 0x27"

fun option_clauses :: "(string \<times> bool) list \<Rightarrow> string" where
  "option_clauses [] = []"
| "option_clauses ((text, checked) # items) =
     (if checked then [apostrophe] @ text @ [apostrophe] @ '' or '' @ option_clauses items
      else option_clauses items)"

definition saveFile :: "string \<Rightarrow> impl \<Rightarrow> impl" where
  "saveFile fileName s =
     (let count = length (playTree s)
      in if count > 0 then
           (let option = chop 4 (''topic == '' @ option_clauses (playTree s))
            in startDetached ''rosbag''
                 [Text ''filter'', Text (filePath s), Text fileName, Text option] s)
         else s)"

text \<open>
  A slot body as the list of its statements, each a step from the state before it to the
  state after it. Running the list runs the statements in order and stops at the first
  failure; \<open>states_after\<close> lists the state each statement leaves, in the order in which they
  are run.
\<close>

type_synonym statement = "impl \<Rightarrow> error + impl"

fun run_statements :: "statement list \<Rightarrow> impl \<Rightarrow> error + impl" where
  "run_statements [] s = Inr s"
| "run_statements (c # cs) s =
     (case c s of Inl e \<Rightarrow> Inl e | Inr s' \<Rightarrow> run_statements cs s')"

fun states_after :: "statement list \<Rightarrow> impl \<Rightarrow> impl list" where
  "states_after [] s = []"
| "states_after (c # cs) s =
     (case c s of Inl e \<Rightarrow> [] | Inr s' \<Rightarrow> s' # states_after cs s')"

text \<open>
  \<^verbatim>\<open>open\<close> and \<^verbatim>\<open>save\<close>: the file name the dialog returns is an input (empty when the user
  cancels, and then the slot returns before it restarts the timer). The statements of
  \<^verbatim>\<open>open\<close>, in the order of the source: stop when playing; stop the timer; unless the
  dialog was cancelled, load the file and start the timer.
\<close>

definition open_statements :: "string \<Rightarrow> bag option \<Rightarrow> statement list" where
  "open_statements fileName file =
     [\<lambda>s. Inr (if is_playing s then stop s else s),
      \<lambda>s. Inr (s\<lparr>timer_active := False\<rparr>)]
     @ (if fileName = [] then []
        else [loadFile fileName file,
              \<lambda>s. Inr (s\<lparr>timer_active := True\<rparr>)])"

definition open_slot :: "string \<Rightarrow> bag option \<Rightarrow> impl \<Rightarrow> error + impl" where
  "open_slot fileName file s = run_statements (open_statements fileName file) s"

definition save :: "string \<Rightarrow> impl \<Rightarrow> impl" where
  "save fileName s =
     (let s1 = (if is_playing s then stop s else s);
          s2 = s1\<lparr>timer_active := False\<rparr>
      in if fileName = [] then s2
         else (saveFile fileName s2)\<lparr>timer_active := True\<rparr>)"

subsection \<open>The topic poll\<close>

text \<open>
  \<^verbatim>\<open>ros::master::getTopics\<close> is an input: \<open>None\<close> when it returns false, the topics (name and
  data type) otherwise. \<^verbatim>\<open>numTopics\<close> is the function's static variable.
\<close>

definition on_timer_timeout :: "(string \<times> string) list option \<Rightarrow> impl \<Rightarrow> impl" where
  "on_timer_timeout master s =
     (case master of
        None \<Rightarrow> s
      | Some topics \<Rightarrow>
          (if length topics \<noteq> numTopics s then
             s\<lparr>numTopics := length topics,
               recordTree := map (\<lambda>(name, dataType). (name, True)) topics\<rparr>
           else s))"

section \<open>Runs of the window\<close>

text \<open>
  Everything that can happen to the window: the user's actions on the tool bar, the trees,
  the spin box and the slider, a timer tick and a clock message, each with what the outside
  world supplies.
\<close>

datatype event =
    Open string "bag option"
  | Save string
  | RecordToggled nat
  | ClickPlay nat
  | ClickResume nat
  | ClickStop nat
  | Config bool bool bool real
  | CheckRecord bool
  | CheckPlay bool
  | PlayItemClicked nat
  | RecordItemClicked nat
  | TimerTimeout "(string \<times> string) list option"
  | TimeSpinEdited real
  | TimeSliderMoved int
  | Clock int

fun step :: "event \<Rightarrow> impl \<Rightarrow> error + impl" where
  "step (Open fileName file) s = open_slot fileName file s"
| "step (Save fileName) s = Inr (save fileName s)"
| "step (RecordToggled now) s = Inr (recordAct_toggle now s)"
| "step (ClickPlay now) s = clickPlay now s"
| "step (ClickResume now) s = Inr (clickResume now s)"
| "step (ClickStop now) s = Inr (clickStop now s)"
| "step (Config accepted loop clock r) s = Inr (config accepted loop clock r s)"
| "step (CheckRecord checked) s = Inr (checkRecord checked s)"
| "step (CheckPlay checked) s = Inr (checkPlay checked s)"
| "step (PlayItemClicked i) s = Inr (s\<lparr>playTree := toggle_item i (playTree s)\<rparr>)"
| "step (RecordItemClicked i) s = Inr (s\<lparr>recordTree := toggle_item i (recordTree s)\<rparr>)"
| "step (TimerTimeout master) s =
     Inr (if timer_active s then on_timer_timeout master s else s)"
| "step (TimeSpinEdited v) s = timeSpin_setValue v s"
| "step (TimeSliderMoved v) s = timeSlider_setValue v s"
| "step (Clock clock) s = clockCallback clock s"

fun run :: "event list \<Rightarrow> impl \<Rightarrow> error + impl" where
  "run [] s = Inr s"
| "run (e # es) s = (case step e s of Inl err \<Rightarrow> Inl err | Inr s' \<Rightarrow> run es s')"

inductive reachable :: "impl \<Rightarrow> bool" where
  start: "reachable Impl"
| after: "reachable s \<Longrightarrow> step e s = Inr s' \<Longrightarrow> reachable s'"

text \<open>
  What holds of the flags in every run: the record flag and the check mark of the record
  action agree, and a flag that is set has its node name.
\<close>

definition flags_inv :: "impl \<Rightarrow> bool" where
  "flags_inv s =
     (is_recording s = recordAct_checked s
      \<and> (is_recording s \<longrightarrow> recordNode s \<noteq> [])
      \<and> (is_playing s \<longrightarrow> playNode s \<noteq> []))"

section \<open>The filter expression the specification describes\<close>

text \<open>
  The specification's save builds an OR of one equality clause for each selected topic,
  \<^verbatim>\<open>topic == '<name>'\<close>, with the trailing \<^verbatim>\<open>" or "\<close> trimmed. This definition follows those
  words, for comparison with what \<open>saveFile\<close> builds.
\<close>

definition spec_filter_predicate :: "string list \<Rightarrow> string" where
  "spec_filter_predicate names =
     chop 4 (concat (map (\<lambda>name. ''topic == '' @ [apostrophe] @ name @ [apostrophe] @ '' or '')
       names))"

section \<open>Concrete files and states\<close>

definition bag_a :: bag where
  "bag_a = \<lparr>view_begin_time = 0, view_end_time = 10000000000, view_connections = [''/a'']\<rparr>"

definition bag_b :: bag where
  "bag_b = \<lparr>view_begin_time = 0, view_end_time = 20000000000,
     view_connections = [''/b'', ''/c'']\<rparr>"

definition bag_abc :: bag where
  "bag_abc = \<lparr>view_begin_time = 0, view_end_time = 10000000000,
     view_connections = [''/a'', ''/b'', ''/c'']\<rparr>"

text \<open>The window after \<open>bag_a\<close> was opened from \<^verbatim>\<open>a.bag\<close>.\<close>

definition loaded_a :: impl where
  "loaded_a = Impl\<lparr>playTree := [(''/a'', True)], endTimeSpin := 10,
     filePath := ''a.bag'', end_time := 10000000000\<rparr>"

text \<open>After opening \<^verbatim>\<open>a.bag\<close>, playing it and stopping.\<close>

definition stopped_a :: impl where
  "stopped_a = loaded_a\<lparr>playNode := ''play_7'',
     spawned := [(''rosbag'', [Text ''play'', Text ''a.bag'', Text ''-q'', Text ''--clock'',
                    Text ''-r'', Number 1, Text ''-s'', Number 0, Text ''--topics'',
                    Text ''/a'', Text ''__name:=play_7'']),
                 (''rosnode'', [Text ''kill'', Text ''/play_7''])]\<rparr>"

text \<open>While one topic is recorded and \<^verbatim>\<open>a.bag\<close> is played.\<close>

definition busy :: impl where
  "busy = loaded_a\<lparr>recordAct_checked := True, numTopics := 1, recordTree := [(''/x'', True)],
     recordNode := ''record_3'', playNode := ''play_7'',
     is_recording := True, is_playing := True,
     spawned := [(''rosbag'', [Text ''record'', Text ''/x'', Text ''__name:=record_3'']),
                 (''rosbag'', [Text ''play'', Text ''a.bag'', Text ''-q'', Text ''--clock'',
                    Text ''-r'', Number 1, Text ''-s'', Number 0, Text ''--topics'',
                    Text ''/a'', Text ''__name:=play_7''])]\<rparr>"

text \<open>A slider whose range does not start at zero, over a duration of ten seconds.\<close>

definition offset_range :: impl where
  "offset_range = Impl\<lparr>endTimeSpin := 10, timeSlider := 50,
     timeSlider_minimum := 50, timeSlider_maximum := 150\<rparr>"

text \<open>The window after a file of half a second was opened.\<close>

definition half_second :: impl where
  "half_second = Impl\<lparr>playTree := [(''/a'', True)], endTimeSpin := 1 / 2,
     filePath := ''a.bag'', end_time := 500000000\<rparr>"

section \<open>Auxiliary facts\<close>

lemma decimal_3: "decimal 3 = ''3''"
  by code_simp

lemma decimal_7: "decimal 7 = ''7''"
  by code_simp

lemma trunc_nonneg: "0 \<le> x \<Longrightarrow> trunc x = \<lfloor>x\<rfloor>"
  by (simp add: trunc_def)

subsection \<open>Rounding to binary64\<close>

lemma fl_0 [simp]: "fl 0 = 0"
  by (simp add: fl_def)

lemma round_even_near: "\<bar>real_of_int (round_even y) - y\<bar> \<le> 1 / 2"
  unfolding round_even_def by (auto simp: abs_le_iff)

lemma round_even_nonneg: "0 \<le> y \<Longrightarrow> 0 \<le> round_even y"
  unfolding round_even_def by auto

lemma ulp_pos: "0 < ulp x"
  by (simp add: ulp_def)

lemma fl_nonneg: "0 \<le> x \<Longrightarrow> 0 \<le> fl x"
  using ulp_pos [of x] by (simp add: fl_def round_even_nonneg)

lemma fl_near: "\<bar>fl x - x\<bar> \<le> ulp x / 2"
proof (cases "x = 0")
  case True
  then show ?thesis using ulp_pos [of x] by simp
next
  case False
  have "\<bar>real_of_int (round_even (x / ulp x)) - x / ulp x\<bar> \<le> 1 / 2"
    by (rule round_even_near)
  then have "\<bar>real_of_int (round_even (x / ulp x)) - x / ulp x\<bar> * ulp x \<le> 1 / 2 * ulp x"
    using ulp_pos [of x] by (intro mult_right_mono) simp_all
  moreover have "(real_of_int (round_even (x / ulp x)) - x / ulp x) * ulp x
      = real_of_int (round_even (x / ulp x)) * ulp x - x"
    using ulp_pos [of x] by (simp add: left_diff_distrib)
  then have "\<bar>real_of_int (round_even (x / ulp x)) - x / ulp x\<bar> * ulp x
      = \<bar>real_of_int (round_even (x / ulp x)) * ulp x - x\<bar>"
    using ulp_pos [of x] abs_mult_pos [of "ulp x"] by (metis less_imp_le)
  ultimately show ?thesis using False by (simp add: fl_def)
qed

lemma binade_eq:
  assumes "- 1022 \<le> k" "2 powr real_of_int k \<le> \<bar>x\<bar>" "\<bar>x\<bar> < 2 powr real_of_int (k + 1)"
  shows "binade x = k"
proof -
  have "(0::real) < 2 powr real_of_int k" by simp
  with assms(2) have "0 < \<bar>x\<bar>" by linarith
  then have "\<lfloor>log 2 \<bar>x\<bar>\<rfloor> = k"
    using assms(2,3) by (simp add: floor_log_eq_powr_iff)
  with assms(1) show ?thesis by (simp add: binade_def)
qed

lemma ulp_le:
  assumes "x \<noteq> 0"
  shows "ulp x \<le> \<bar>x\<bar> / 2 ^ 52 + 1 / 2 ^ 1074"
proof -
  have pos: "0 < \<bar>x\<bar>" using assms by simp
  define k where "k = \<lfloor>log 2 \<bar>x\<bar>\<rfloor>"
  have k: "2 powr real_of_int k \<le> \<bar>x\<bar>"
    using pos floor_log_eq_powr_iff [of "\<bar>x\<bar>" 2 k] by (simp add: k_def)
  show ?thesis
  proof (cases "- 1022 \<le> k")
    case True
    then have "ulp x = 2 powr (real_of_int k - 52)"
      by (simp add: ulp_def binade_def k_def [symmetric] max_def)
    also have "\<dots> = 2 powr real_of_int k / 2 ^ 52"
      by (simp add: powr_diff)
    also have "\<dots> \<le> \<bar>x\<bar> / 2 ^ 52"
      using k by (simp add: divide_right_mono)
    finally have "ulp x \<le> \<bar>x\<bar> / 2 ^ 52" .
    moreover have "(0::real) \<le> 1 / 2 ^ 1074" by simp
    ultimately show ?thesis by linarith
  next
    case False
    then have "ulp x = 2 powr (- 1074)"
      by (simp add: ulp_def binade_def k_def [symmetric] max_def)
    also have "\<dots> = 1 / 2 ^ 1074"
      by (simp add: powr_minus inverse_eq_divide)
    finally show ?thesis using pos by simp
  qed
qed

text \<open>The error of one rounding: relative \<open>2 ^ (- 53)\<close>, or half a subnormal step.\<close>

lemma fl_error: "\<bar>fl x - x\<bar> \<le> \<bar>x\<bar> / 2 ^ 53 + 1 / 2 ^ 1075"
proof (cases "x = 0")
  case True
  then show ?thesis by simp
next
  case False
  from ulp_le [OF False] have "ulp x / 2 \<le> (\<bar>x\<bar> / 2 ^ 52 + 1 / 2 ^ 1074) / 2"
    by (simp add: divide_right_mono)
  also have "\<dots> = \<bar>x\<bar> / 2 ^ 53 + 1 / 2 ^ 1075"
    by (simp add: add_divide_distrib)
  finally show ?thesis using fl_near [of x] by linarith
qed

text \<open>Rounding a given number, its binade \<open>k\<close> and the rounded multiple \<open>m\<close> supplied.\<close>

lemma fl_eval:
  assumes "- 1022 \<le> k" "2 powr real_of_int k \<le> \<bar>x\<bar>" "\<bar>x\<bar> < 2 powr real_of_int (k + 1)"
    and "round_even (x / 2 powr real_of_int (k - 52)) = m"
  shows "fl x = real_of_int m * 2 powr real_of_int (k - 52)"
proof -
  have "(0::real) < 2 powr real_of_int k" by simp
  with assms(2) have "x \<noteq> 0" by auto
  moreover have "ulp x = 2 powr real_of_int (k - 52)"
    using binade_eq [OF assms(1-3)] by (simp add: ulp_def)
  ultimately show ?thesis using assms(4) by (simp add: fl_def)
qed

lemma fl_half: "fl (1 / 2) = 1 / 2"
  using fl_eval [of "- 1" "1 / 2" 4503599627370496]
  by (simp add: powr_minus round_even_def)

lemma fl_5: "fl 5 = 5"
  using fl_eval [of 2 5 5629499534213120]
  by (simp add: powr_minus round_even_def)

lemma fl_10: "fl 10 = 10"
  using fl_eval [of 3 10 5629499534213120]
  by (simp add: powr_minus round_even_def)

lemma fl_20: "fl 20 = 20"
  using fl_eval [of 4 20 5629499534213120]
  by (simp add: powr_minus round_even_def)

lemma fl_50: "fl 50 = 50"
  using fl_eval [of 5 50 7036874417766400]
  by (simp add: powr_minus round_even_def)

lemma fl_fifth: "fl (1 / 5) = 3602879701896397 / 18014398509481984"
  using fl_eval [of "- 3" "1 / 5" 7205759403792794]
  by (simp add: powr_minus round_even_def)

lemma fl_20_above: "fl (90071992547409925 / 4503599627370496) = 20"
  using fl_eval [of 4 "90071992547409925 / 4503599627370496" 5629499534213120]
  by (simp add: powr_minus round_even_def)

lemma fl_29: "fl (29 / 100) = 5224175567749775 / 18014398509481984"
  using fl_eval [of "- 2" "29 / 100" 5224175567749775]
  by (simp add: powr_minus round_even_def)

lemma fl_29_twice: "fl (5224175567749775 / 9007199254740992) = 5224175567749775 / 9007199254740992"
  using fl_eval [of "- 1" "5224175567749775 / 9007199254740992" 5224175567749775]
  by (simp add: powr_minus round_even_def)

lemma fl_58_below:
  "fl (130604389193744375 / 2251799813685248) = 8162774324609023 / 140737488355328"
  using fl_eval [of 5 "130604389193744375 / 2251799813685248" 8162774324609023]
  by (simp add: powr_minus round_even_def)

lemma fl_57: "fl (57 / 100) = 5134103575202365 / 9007199254740992"
  using fl_eval [of "- 1" "57 / 100" 5134103575202365]
  by (simp add: powr_minus round_even_def)

lemma fl_57_half:
  "fl (5134103575202365 / 18014398509481984) = 5134103575202365 / 18014398509481984"
  using fl_eval [of "- 2" "5134103575202365 / 18014398509481984" 5134103575202365]
  by (simp add: powr_minus round_even_def)

lemma fl_28: "fl (7 / 25) = 1261007895663739 / 4503599627370496"
  using fl_eval [of "- 2" "7 / 25" 5044031582654956]
  by (simp add: powr_minus round_even_def)

lemmas fl_values = fl_half fl_5 fl_10 fl_20 fl_50

text \<open>A rounding of a number of moderate size: no overflow, and an error bounded by the size.\<close>

lemma fl_abs:
  assumes "\<bar>x\<bar> \<le> B" "1 \<le> B"
  shows "\<bar>fl x - x\<bar> \<le> B / 2 ^ 52"
proof -
  have "\<bar>fl x - x\<bar> \<le> \<bar>x\<bar> / 2 ^ 53 + 1 / 2 ^ 1075" by (rule fl_error)
  also have "\<dots> \<le> B / 2 ^ 53 + B / 2 ^ 53"
  proof (intro add_mono)
    show "\<bar>x\<bar> / 2 ^ 53 \<le> B / 2 ^ 53" using assms(1) by (simp add: divide_right_mono)
    have "(1::real) / 2 ^ 1075 \<le> 1 / 2 ^ 53"
      by (intro divide_left_mono power_increasing) simp_all
    also have "\<dots> \<le> B / 2 ^ 53" using assms(2) by (simp add: divide_right_mono)
    finally show "1 / 2 ^ 1075 \<le> B / 2 ^ 53" .
  qed
  also have "\<dots> = B / 2 ^ 52" by simp
  finally show ?thesis .
qed

lemma double_of_Finite:
  assumes "\<bar>x\<bar> \<le> B" "1 \<le> B" "B \<le> 2 ^ 40"
  shows "double_of x = Finite (fl x)"
proof -
  have "B / 2 ^ 52 \<le> B" using assms(2) by (simp add: field_simps)
  with fl_abs [OF assms(1,2)] assms(1) have "\<bar>fl x\<bar> \<le> 2 * B" by linarith
  also have "\<dots> \<le> 2 * 2 ^ 40" using assms(3) by simp
  also have "\<dots> < (2::real) ^ 1024"
    using power_strict_increasing [of 41 1024 "2::real"] by simp
  finally show ?thesis by (simp add: double_of_def)
qed

lemma spin_value_near_fl:
  assumes "0 \<le> x" "x \<le> 10000" "0 \<le> e" "e \<le> 9999"
  shows "\<bar>spin_value x - e\<bar> \<le> \<bar>x - e\<bar> + 1 / 200 + 10001 / 2 ^ 52"
proof -
  define w where "w = real_of_int (round (x * 100)) / 100"
  have "\<bar>real_of_int (round (x * 100)) - x * 100\<bar> \<le> 1 / 2"
    by (rule of_int_round_abs_le)
  then have wx: "\<bar>w - x\<bar> \<le> 1 / 200"
    unfolding w_def by (simp add: abs_le_iff field_simps)
  have "0 \<le> round (x * 100)" using assms(1) by (simp add: round_def)
  then have w0: "0 \<le> w" by (simp add: w_def)
  have w1: "w \<le> 10001" using wx assms(2) by linarith
  from w0 w1 have "\<bar>w\<bar> \<le> 10001" by simp
  from fl_abs [OF this] have zw: "\<bar>fl w - w\<bar> \<le> 10001 / 2 ^ 52" by simp
  have z0: "0 \<le> fl w" using w0 by (rule fl_nonneg)
  have "spin_value x = min 9999 (max 0 (fl w))"
    by (simp add: spin_value_def qBound_def w_def max_def min_def)
  with z0 have sv: "spin_value x = min 9999 (fl w)" by simp
  have "\<bar>min 9999 (fl w) - e\<bar> \<le> \<bar>fl w - e\<bar>"
    using assms(4) unfolding min_def by (auto simp: abs_if)
  also have "\<dots> \<le> \<bar>fl w - w\<bar> + \<bar>w - x\<bar> + \<bar>x - e\<bar>" by linarith
  finally show ?thesis using zw wx sv by linarith
qed

lemma spin_value_0 [simp]: "spin_value 0 = 0"
  by (simp add: spin_value_def qBound_def)

lemma spin_value_5: "spin_value 5 = 5"
  by (simp add: spin_value_def qBound_def fl_5)

lemma spin_value_10: "spin_value 10 = 10"
  by (simp add: spin_value_def qBound_def fl_10)

lemma spin_value_20: "spin_value 20 = 20"
  by (simp add: spin_value_def qBound_def fl_20)

lemma spin_value_half: "spin_value (1 / 2) = 1 / 2"
  by (simp add: spin_value_def qBound_def fl_half)

lemma spin_value_29: "spin_value (29 / 100) = fl (29 / 100)"
  by (simp add: spin_value_def qBound_def fl_29)

lemmas spin_values = spin_value_5 spin_value_10 spin_value_20 spin_value_half spin_value_29

subsection \<open>The slot of the open action, as one expression\<close>

lemma open_slot_unfold:
  "open_slot fileName file s =
     (let s1 = (if is_playing s then stop s else s);
          s2 = s1\<lparr>timer_active := False\<rparr>
      in if fileName = [] then Inr s2
         else (case loadFile fileName file s2 of
                 Inl e \<Rightarrow> Inl e
               | Inr s3 \<Rightarrow> Inr (s3\<lparr>timer_active := True\<rparr>)))"
  by (simp add: open_slot_def open_statements_def Let_def split: sum.splits)

subsection \<open>The record slot, unfolded\<close>

lemma recordAct_setChecked_same:
  "recordAct_checked s = b \<Longrightarrow> recordAct_setChecked b now s = s"
  by (simp add: recordAct_setChecked.simps)

lemma record_slot_unchecked:
  "\<not> recordAct_checked s \<Longrightarrow> record_slot False now s =
     (if is_recording s then
        startDetached ''rosnode'' [Text ''kill'', Text (''/'' @ recordNode s)] s
      else s)\<lparr>is_recording := False\<rparr>"
  by (subst record_slot.simps) (simp add: recordAct_setChecked_same Let_def)

lemma recordAct_setChecked_False:
  "recordAct_setChecked False now s =
     (if recordAct_checked s then
        (if is_recording s then
           startDetached ''rosnode'' [Text ''kill'', Text (''/'' @ recordNode s)]
             (s\<lparr>recordAct_checked := False\<rparr>)
         else s\<lparr>recordAct_checked := False\<rparr>)\<lparr>is_recording := False\<rparr>
      else s)"
  by (subst recordAct_setChecked.simps) (simp add: record_slot_unchecked)

lemma record_slot_True_empty:
  "recordTree s = [] \<Longrightarrow>
   record_slot True now s = (recordAct_setChecked False now s)\<lparr>is_recording := False\<rparr>"
  by (subst record_slot.simps) (simp add: Let_def)

lemma record_slot_True_items:
  "recordTree s \<noteq> [] \<Longrightarrow>
   record_slot True now s =
     (startDetached ''rosbag''
        ([Text ''record''] @ checked_texts (recordTree s)
           @ [Text (''__name:='' @ ''record_'' @ decimal now)])
        (s\<lparr>recordNode := ''record_'' @ decimal now\<rparr>))\<lparr>is_recording := True\<rparr>"
  by (subst record_slot.simps) (simp add: Let_def)

lemma recordAct_setChecked_True:
  "recordAct_setChecked True now s =
     (if recordAct_checked s then s
      else record_slot True now (s\<lparr>recordAct_checked := True\<rparr>))"
  by (subst recordAct_setChecked.simps) simp

section \<open>Recording\<close>

text \<open>
  Claim C1, as the code has it. When the record tree has no item at all, \<open>record\<close> with
  \<open>checked = true\<close> refuses: afterwards the record flag is false and the record action is
  unchecked, no \<^verbatim>\<open>rosbag\<close> process was launched, and nothing at all was launched when the
  window was not recording. The refusal depends on the tree being empty, not on how many of
  its items are checked.
\<close>

theorem record_refused_when_tree_empty:
  assumes "recordTree s = []"
  shows "\<not> is_recording (record_slot True now s)
    \<and> \<not> recordAct_checked (record_slot True now s)
    \<and> filter (\<lambda>a. fst a = ''rosbag'') (spawned (record_slot True now s))
        = filter (\<lambda>a. fst a = ''rosbag'') (spawned s)
    \<and> (\<not> is_recording s \<longrightarrow> spawned (record_slot True now s) = spawned s)"
  using assms
  by (simp add: record_slot_True_empty recordAct_setChecked_False startDetached_def)

theorem record_refused_when_tree_empty_witness:
  "recordTree (Impl\<lparr>recordAct_checked := True\<rparr>) = []
   \<and> \<not> is_recording (Impl\<lparr>recordAct_checked := True\<rparr>)
   \<and> \<not> is_recording (record_slot True 7 (Impl\<lparr>recordAct_checked := True\<rparr>))
   \<and> \<not> recordAct_checked (record_slot True 7 (Impl\<lparr>recordAct_checked := True\<rparr>))
   \<and> spawned (record_slot True 7 (Impl\<lparr>recordAct_checked := True\<rparr>)) = []"
  using record_refused_when_tree_empty [of "Impl\<lparr>recordAct_checked := True\<rparr>" 7]
  by (simp add: Impl_def)

text \<open>
  Claim C1 as stated fails when the tree has items and none is checked: the poll finds one
  topic, the user unchecks all and clicks the record action. The recorder is launched with
  no topic, and the window is recording.
\<close>

theorem record_spawns_with_nothing_checked:
  "run [TimerTimeout (Some [(''/a'', ''std_msgs/String'')]), CheckRecord False,
        RecordToggled 7] Impl
   = Inr (Impl\<lparr>recordAct_checked := True, numTopics := 1, recordTree := [(''/a'', False)],
        recordNode := ''record_7'', is_recording := True,
        spawned := [(''rosbag'', [Text ''record'', Text ''__name:=record_7''])]\<rparr>)"
  by (simp add: Impl_def on_timer_timeout_def checkRecord_def recordAct_toggle_def
      recordAct_setChecked_True record_slot_True_items startDetached_def decimal_7)

section \<open>Saving\<close>

text \<open>
  Claim C2 says that for the checked topics /a and /b, with /c unchecked, the predicate
  handed to the filter is \<^verbatim>\<open>topic == '/a' or topic == '/b'\<close>. \<open>saveFile\<close> writes
  \<^verbatim>\<open>topic == \<close> once, before its loop, so after opening such a file, unchecking the third
  item and saving, the predicate is \<^verbatim>\<open>topic == '/a' or '/b'\<close>: not the string of the claim.
\<close>

theorem saveFile_writes_topic_prefix_once:
  "run [Open ''in.bag'' (Some bag_abc), PlayItemClicked 2, Save ''out.bag''] Impl
   = Inr (Impl\<lparr>playTree := [(''/a'', True), (''/b'', True), (''/c'', False)],
        endTimeSpin := 10, filePath := ''in.bag'', end_time := 10000000000,
        spawned := [(''rosbag'', [Text ''filter'', Text ''in.bag'', Text ''out.bag'',
           Text (''topic == '' @ [apostrophe] @ ''/a'' @ [apostrophe] @ '' or ''
                   @ [apostrophe] @ ''/b'' @ [apostrophe])])]\<rparr>)
   \<and> spec_filter_predicate [''/a'', ''/b'']
       = ''topic == '' @ [apostrophe] @ ''/a'' @ [apostrophe] @ '' or ''
          @ ''topic == '' @ [apostrophe] @ ''/b'' @ [apostrophe]
   \<and> ''topic == '' @ [apostrophe] @ ''/a'' @ [apostrophe] @ '' or ''
          @ [apostrophe] @ ''/b'' @ [apostrophe]
       \<noteq> spec_filter_predicate [''/a'', ''/b'']"
  by (simp add: Impl_def bag_abc_def open_slot_unfold loadFile_def spin_values
      toggle_item_def save_def saveFile_def chop_def startDetached_def
      spec_filter_predicate_def apostrophe_def)

section \<open>The time spin box and the slider\<close>

text \<open>
  Claim C3 says that with a duration of zero the conversion of the elapsed time to slider
  units yields the minimum of the range. \<open>on_timeSpin_valueChanged\<close> has no such case: for
  every value and every state whose end and begin spin boxes agree it divides by zero, and
  the conversion of the product to \<^verbatim>\<open>int\<close> is undefined. The window starts in such a state:
  setting its time spin box to 5 before any file is loaded runs into it.
\<close>

theorem on_timeSpin_valueChanged_zero_duration:
  "on_timeSpin_valueChanged e (s\<lparr>endTimeSpin := beginTimeSpin s\<rparr>) = Inl FloatToIntUndefined
   \<and> run [TimeSpinEdited 5] Impl = Inl FloatToIntUndefined"
  by (simp add: on_timeSpin_valueChanged_def ddiv_def dsub_def Impl_def timeSpin_setValue_def
      spin_values)

text \<open>
  Claim C4, as the code has it. Let the slider's range start at zero and end at a positive
  \<^verbatim>\<open>int\<close> \<open>max\<close>, let \<open>d\<close> be the duration the slots compute from the spin boxes, with
  \<open>0 < d \<le> 9999\<close>, and let \<open>0 \<le> e \<le> d\<close>. Then the spin box's slot sets the slider to a position
  of the range, the slider's slot at that position sets the time spin box, and the value it
  sets differs from \<open>e\<close> by at most \<open>d / max + 0.005 + 0.000000001\<close>: one slider unit of time
  (the position is truncated, and a rounded product just below an integer loses a whole
  unit), the spin box's rounding to two decimals, and the rounding of the double operations.
\<close>

theorem slider_round_trip:
  assumes range: "timeSlider_minimum s = 0" "0 < timeSlider_maximum s"
      "timeSlider_maximum s \<le> 2147483647"
    and d: "0 < dsub (endTimeSpin s) (beginTimeSpin s)"
      "dsub (endTimeSpin s) (beginTimeSpin s) \<le> 9999"
    and e: "0 \<le> e" "e \<le> dsub (endTimeSpin s) (beginTimeSpin s)"
  shows "\<exists>s1 s2.
      on_timeSpin_valueChanged e s = Inr s1
    \<and> 0 \<le> timeSlider s1 \<and> timeSlider s1 \<le> timeSlider_maximum s
    \<and> on_timeSlider_valueChanged (timeSlider s1) s1 = Inr s2
    \<and> \<bar>timeSpin s2 - e\<bar>
        \<le> dsub (endTimeSpin s) (beginTimeSpin s) / real_of_int (timeSlider_maximum s)
           + 1 / 200 + 1 / 10 ^ 9"
proof -
  define d where "d = dsub (endTimeSpin s) (beginTimeSpin s)"
  define m where "m = real_of_int (timeSlider_maximum s)"
  define t where "t = e / d"
  define q where "q = fl t"
  define p where "p = fl (m * q)"
  define v where "v = \<lfloor>p\<rfloor>"
  define r where "r = fl (real_of_int v / m)"
  define x where "x = fl (d * r)"
  have dpos: "0 < d" "d \<le> 9999" using d by (simp_all add: d_def)
  have ed: "0 \<le> e" "e \<le> d" using e by (simp_all add: d_def)
  have m: "1 \<le> m" "m \<le> 2147483647" using range by (simp_all add: m_def)
  have t: "0 \<le> t" "t \<le> 1" using ed dpos by (simp_all add: t_def)
  \<comment> \<open>the quotient\<close>
  have "\<bar>t\<bar> \<le> 1" using t by simp
  from fl_abs [OF this] double_of_Finite [OF this]
  have qt: "\<bar>q - t\<bar> \<le> 1 / 2 ^ 52" and qf: "double_of t = Finite q"
    by (simp_all add: q_def)
  have q0: "0 \<le> q" unfolding q_def using t(1) by (rule fl_nonneg)
  have small: "(1::real) / 2 ^ 52 \<le> 1" by simp
  have q2: "q \<le> 2" using qt t(2) small by linarith
  \<comment> \<open>the product with the span\<close>
  have mq0: "0 \<le> m * q" using m q0 by simp
  have "m * q \<le> m * 2" using q2 m by (intro mult_left_mono) simp_all
  with mq0 have mqB: "\<bar>m * q\<bar> \<le> 2 * m" by simp
  have B1: "1 \<le> 2 * m" "2 * m \<le> 2 ^ 40" using m by simp_all
  from fl_abs [OF mqB B1(1)] double_of_Finite [OF mqB B1]
  have pmq: "\<bar>p - m * q\<bar> \<le> 2 * m / 2 ^ 52" and pf: "double_of (m * q) = Finite p"
    by (simp_all add: p_def)
  have p0: "0 \<le> p" unfolding p_def using mq0 by (rule fl_nonneg)
  have "\<bar>m * q - m * t\<bar> = m * \<bar>q - t\<bar>"
    using m by (simp add: right_diff_distrib [symmetric] abs_mult)
  also have "\<dots> \<le> m * (1 / 2 ^ 52)" using qt m by (intro mult_left_mono) simp_all
  finally have "\<bar>m * q - m * t\<bar> \<le> m / 2 ^ 52" by simp
  with pmq have pmt: "\<bar>p - m * t\<bar> \<le> 3 * m / 2 ^ 52" by linarith
  have mt: "m * t \<le> m" using t m by (simp add: mult_left_le)
  have "3 * m / 2 ^ 52 < 1" using m by simp
  with pmt mt have p_lt: "p < m + 1" by linarith
  have v0: "0 \<le> v" using p0 by (simp add: v_def)
  have "real_of_int v \<le> p" by (simp add: v_def)
  with p_lt have "real_of_int v < real_of_int (timeSlider_maximum s + 1)"
    by (simp add: m_def)
  then have vmax: "v \<le> timeSlider_maximum s" by linarith
  have vp: "real_of_int v \<le> p" "p < real_of_int v + 1" by (simp_all add: v_def)
  have tv: "trunc p = v" using p0 by (simp add: trunc_nonneg v_def)
  have s1: "on_timeSpin_valueChanged e s = Inr (s\<lparr>timeSlider := v\<rparr>)"
    using dpos range v0 vmax qf pf
    by (simp add: on_timeSpin_valueChanged_def Let_def ddiv_def d_def [symmetric]
        t_def [symmetric] m_def [symmetric] tv qBound_def)
  \<comment> \<open>back: the quotient by the span\<close>
  define c where "c = real_of_int v / m"
  have c: "0 \<le> c" "c \<le> 1"
    using v0 vmax m by (simp_all add: c_def m_def)
  then have "\<bar>c\<bar> \<le> 1" by simp
  from fl_abs [OF this] double_of_Finite [OF this]
  have rc: "\<bar>r - c\<bar> \<le> 1 / 2 ^ 52" and rf: "double_of c = Finite r"
    by (simp_all add: r_def c_def)
  have r0: "0 \<le> r" unfolding r_def c_def [symmetric] using c(1) by (rule fl_nonneg)
  have r2: "r \<le> 2" using rc c(2) small by linarith
  \<comment> \<open>the product with the duration\<close>
  have dr0: "0 \<le> d * r" using dpos r0 by simp
  have "d * r \<le> 9999 * 2" using dpos r2 r0 by (intro mult_mono) simp_all
  with dr0 have drB: "\<bar>d * r\<bar> \<le> 19998" by simp
  from fl_abs [OF drB] double_of_Finite [OF drB]
  have xdr: "\<bar>x - d * r\<bar> \<le> 19998 / 2 ^ 52" and xf: "double_of (d * r) = Finite x"
    by (simp_all add: x_def)
  have x0: "0 \<le> x" unfolding x_def using dr0 by (rule fl_nonneg)
  have s2: "on_timeSlider_valueChanged v (s\<lparr>timeSlider := v\<rparr>)
      = Inr (s\<lparr>timeSlider := v, timeSpin := spin_value x\<rparr>)"
    using m range rf xf
    by (simp add: on_timeSlider_valueChanged_def Let_def ddiv_def d_def [symmetric]
        m_def [symmetric] c_def [symmetric])
  \<comment> \<open>how far \<open>x\<close> is from \<open>e\<close>\<close>
  have "d * r - d * c = d * (r - c)" by (simp add: right_diff_distrib)
  then have "\<bar>d * r - d * c\<bar> = d * \<bar>r - c\<bar>"
    using dpos by (simp add: abs_mult)
  also have "\<dots> \<le> 9999 * (1 / 2 ^ 52)" using rc dpos by (intro mult_mono) simp_all
  finally have "\<bar>d * r - d * c\<bar> \<le> 9999 / 2 ^ 52" by simp
  with xdr have xdc: "\<bar>x - d * c\<bar> \<le> 29997 / 2 ^ 52" by linarith
  have e_eq: "e = d * t" using dpos by (simp add: t_def)
  have mpos: "0 < m" using m by simp
  from pmt have pup: "p \<le> m * t + 3 * m / 2 ^ 52" and plow: "m * t - 3 * m / 2 ^ 52 \<le> p"
    by linarith+
  have "c \<le> p / m" unfolding c_def
    by (rule divide_right_mono [OF vp(1)]) (use mpos in simp)
  also have "p / m \<le> (m * t + 3 * m / 2 ^ 52) / m"
    by (rule divide_right_mono [OF pup]) (use mpos in simp)
  also have "\<dots> = t + 3 / 2 ^ 52" using mpos by (simp add: add_divide_distrib)
  finally have "d * c \<le> d * (t + 3 / 2 ^ 52)"
    using dpos by (intro mult_left_mono) simp_all
  also have "\<dots> = e + d * (3 / 2 ^ 52)" by (simp add: e_eq distrib_left)
  also have "\<dots> \<le> e + 9999 * (3 / 2 ^ 52)"
    using dpos by (intro add_left_mono mult_right_mono) simp_all
  finally have up: "d * c \<le> e + 29997 / 2 ^ 52" by simp
  have "m * t - 3 * m / 2 ^ 52 - 1 \<le> p - 1" using plow by linarith
  then have "(m * t - 3 * m / 2 ^ 52 - 1) / m \<le> (p - 1) / m"
    by (rule divide_right_mono) (use mpos in simp)
  also have "\<dots> \<le> c"
  proof -
    have "p - 1 \<le> real_of_int v" using vp(2) by linarith
    then show ?thesis unfolding c_def
      by (rule divide_right_mono) (use mpos in simp)
  qed
  finally have "t - 3 / 2 ^ 52 - 1 / m \<le> c"
    using mpos by (simp add: diff_divide_distrib)
  then have "d * (t - 3 / 2 ^ 52 - 1 / m) \<le> d * c"
    using dpos by (intro mult_left_mono) simp_all
  moreover have "d * (t - 3 / 2 ^ 52 - 1 / m) = e - d * (3 / 2 ^ 52) - d / m"
    by (simp add: e_eq right_diff_distrib)
  moreover have "d * (3 / 2 ^ 52) \<le> 9999 * (3 / 2 ^ 52)"
    using dpos by (intro mult_right_mono) simp_all
  ultimately have low: "e - 29997 / 2 ^ 52 - d / m \<le> d * c" by simp
  have dm0: "0 \<le> d / m" using dpos mpos by simp
  from up low dm0 have "\<bar>d * c - e\<bar> \<le> d / m + 29997 / 2 ^ 52"
    by linarith
  with xdc have xe: "\<bar>x - e\<bar> \<le> d / m + 59994 / 2 ^ 52" by linarith
  have "d * c \<le> d * 1"
    using c(2) dpos by (intro mult_left_mono) simp_all
  moreover have "(29997::real) / 2 ^ 52 \<le> 1" by simp
  ultimately have x1: "x \<le> 10000" using xdc dpos by linarith
  have e9: "e \<le> 9999" using ed dpos by simp
  from spin_value_near_fl [OF x0 x1 ed(1) e9] xe
  have "\<bar>spin_value x - e\<bar> \<le> d / m + 1 / 200 + 69995 / 2 ^ 52" by linarith
  moreover have "(69995::real) / 2 ^ 52 \<le> 1 / 10 ^ 9" by simp
  ultimately have final: "\<bar>spin_value x - e\<bar> \<le> d / m + 1 / 200 + 1 / 10 ^ 9" by linarith
  show ?thesis
    using s1 s2 v0 vmax final
    unfolding d_def [symmetric] m_def [symmetric]
    by (intro exI [of _ "s\<lparr>timeSlider := v\<rparr>"]
        exI [of _ "s\<lparr>timeSlider := v, timeSpin := spin_value x\<rparr>"]) simp
qed

theorem slider_round_trip_witness:
  "timeSlider_minimum loaded_a = 0 \<and> 0 < timeSlider_maximum loaded_a
   \<and> timeSlider_maximum loaded_a \<le> 2147483647
   \<and> 0 < dsub (endTimeSpin loaded_a) (beginTimeSpin loaded_a)
   \<and> dsub (endTimeSpin loaded_a) (beginTimeSpin loaded_a) \<le> 9999
   \<and> (0::real) \<le> 5 \<and> 5 \<le> dsub (endTimeSpin loaded_a) (beginTimeSpin loaded_a)
   \<and> on_timeSpin_valueChanged 5 loaded_a = Inr (loaded_a\<lparr>timeSlider := 50\<rparr>)
   \<and> (\<exists>s1 s2.
      on_timeSpin_valueChanged 5 loaded_a = Inr s1
    \<and> 0 \<le> timeSlider s1 \<and> timeSlider s1 \<le> 100
    \<and> on_timeSlider_valueChanged (timeSlider s1) s1 = Inr s2
    \<and> \<bar>timeSpin s2 - 5\<bar> \<le> 10 / 100 + 1 / 200 + 1 / 10 ^ 9)"
  using slider_round_trip [of loaded_a 5]
  by (simp add: loaded_a_def Impl_def on_timeSpin_valueChanged_def ddiv_def dsub_def
      double_of_def fl_values trunc_def qBound_def)

text \<open>
  Claim C4 as stated fails in two ways. With a range of 50 to 150 over ten seconds, the
  elapsed time 2 is sent to the position 50 and that position back to 5 seconds: neither
  slot uses the minimum, and the slider bounds what it is given. And with the range 0 to 100
  that the window has, after a file of half a second was opened and the time spin box set
  to 0.29, the slider is at 57 (the product 100 * (0.29 / 0.5) is rounded to a double just
  below 58) and that position is sent back to 0.28: further from 0.29 than one slider unit
  of time, 0.005.
\<close>

theorem slider_round_trip_fails:
  "on_timeSpin_valueChanged 2 offset_range = Inr offset_range
   \<and> on_timeSlider_valueChanged (timeSlider offset_range) offset_range
       = Inr (offset_range\<lparr>timeSpin := 5\<rparr>)
   \<and> \<not> \<bar>5 - 2\<bar> \<le> (10 / 100 + 1 / 200 + 1 / 10 ^ 9 :: real)
   \<and> run [Open ''a.bag'' (Some \<lparr>view_begin_time = 0, view_end_time = 500000000,
              view_connections = [''/a'']\<rparr>), TimeSpinEdited (29 / 100)] Impl
       = Inr (half_second\<lparr>timeSpin := fl (29 / 100), timeSlider := 57\<rparr>)
   \<and> on_timeSlider_valueChanged 57 (half_second\<lparr>timeSpin := fl (29 / 100), timeSlider := 57\<rparr>)
       = Inr (half_second\<lparr>timeSpin := fl (28 / 100), timeSlider := 57\<rparr>)
   \<and> \<not> \<bar>fl (28 / 100) - fl (29 / 100)\<bar> \<le> (1 / 2) / 100"
proof -
  have a1: "on_timeSpin_valueChanged 2 offset_range = Inr offset_range"
    by (simp add: offset_range_def Impl_def on_timeSpin_valueChanged_def ddiv_def dsub_def
        double_of_def fl_values fl_fifth fl_20_above trunc_def qBound_def)
  have a2: "on_timeSlider_valueChanged (timeSlider offset_range) offset_range
       = Inr (offset_range\<lparr>timeSpin := 5\<rparr>)"
    by (simp add: offset_range_def Impl_def on_timeSlider_valueChanged_def ddiv_def dsub_def
        double_of_def fl_values spin_values)
  have a3: "\<not> \<bar>5 - 2\<bar> \<le> (10 / 100 + 1 / 200 + 1 / 10 ^ 9 :: real)"
    by simp
  have b1: "run [Open ''a.bag'' (Some \<lparr>view_begin_time = 0, view_end_time = 500000000,
              view_connections = [''/a'']\<rparr>), TimeSpinEdited (29 / 100)] Impl
       = Inr (half_second\<lparr>timeSpin := fl (29 / 100), timeSlider := 57\<rparr>)"
    by (simp add: half_second_def Impl_def open_slot_unfold loadFile_def spin_values
        timeSpin_setValue_def on_timeSpin_valueChanged_def ddiv_def dsub_def double_of_def
        fl_values fl_29 fl_29_twice fl_58_below trunc_def qBound_def)
  have b2: "on_timeSlider_valueChanged 57
         (half_second\<lparr>timeSpin := fl (29 / 100), timeSlider := 57\<rparr>)
       = Inr (half_second\<lparr>timeSpin := fl (28 / 100), timeSlider := 57\<rparr>)"
    by (simp add: half_second_def Impl_def on_timeSlider_valueChanged_def ddiv_def dsub_def
        double_of_def fl_values fl_57 fl_57_half fl_28 spin_value_def qBound_def round_def)
  have b3: "\<not> \<bar>fl (28 / 100) - fl (29 / 100)\<bar> \<le> (1 / 2) / 100"
    by (simp add: fl_28 fl_29)
  from a1 a2 a3 b1 b2 b3 show ?thesis by blast
qed

section \<open>Playing\<close>

text \<open>
  Claim C5. When no file is loaded (the file path is empty), \<open>play\<close> refuses: the play flag
  is false afterwards and nothing is launched.
\<close>

theorem play_refused_without_file:
  "filePath s = [] \<Longrightarrow> is_playing (play now s) = False \<and> spawned (play now s) = spawned s"
  by (simp add: play_def)

theorem play_refused_without_file_witness:
  "filePath Impl = [] \<and> is_playing (play 7 Impl) = False \<and> spawned (play 7 Impl) = []"
  using play_refused_without_file [of Impl 7] by (simp add: Impl_def)

text \<open>
  Claim C6, as the code has it. \<open>play\<close> never looks at how many play topics are checked:
  with none checked it still refuses exactly when no file is loaded, and with a file loaded
  it launches the player with nothing after \<^verbatim>\<open>--topics\<close> and sets the play flag.
\<close>

theorem play_with_nothing_checked:
  assumes "checked_texts (playTree s) = []"
  shows "is_playing (play now s) = (filePath s \<noteq> [])
    \<and> spawned (play now s) =
        (if filePath s = [] then spawned s
         else spawned s @ [(''rosbag'',
           [Text ''play'', Text (filePath s), Text ''-q'']
           @ (if is_clock_checked s then [Text ''--clock''] else [])
           @ [Text ''-r'', Number (rate s), Text ''-s'', Number (timeSpin s)]
           @ (if is_loop_checked s then [Text ''-l''] else [])
           @ [Text ''--topics'', Text (''__name:=play_'' @ decimal now)])])"
  using assms by (simp add: play_def startDetached_def Let_def)

theorem play_with_nothing_checked_witness:
  "checked_texts (playTree (Impl\<lparr>filePath := ''a.bag'', playTree := [(''/a'', False)]\<rparr>)) = []
   \<and> is_playing (play 7 (Impl\<lparr>filePath := ''a.bag'', playTree := [(''/a'', False)]\<rparr>))
   \<and> spawned (play 7 (Impl\<lparr>filePath := ''a.bag'', playTree := [(''/a'', False)]\<rparr>))
      = [(''rosbag'', [Text ''play'', Text ''a.bag'', Text ''-q'', Text ''--clock'',
           Text ''-r'', Number 1, Text ''-s'', Number 0, Text ''--topics'',
           Text ''__name:=play_7''])]"
  using play_with_nothing_checked
    [of "Impl\<lparr>filePath := ''a.bag'', playTree := [(''/a'', False)]\<rparr>" 7]
  by (simp add: Impl_def decimal_7)

text \<open>
  Claim C6 as stated fails: after a file was opened and all its topics were unchecked, the
  pause button (which plays when nothing is playing) launches the player.
\<close>

theorem play_spawns_with_nothing_checked:
  "run [Open ''a.bag'' (Some bag_a), CheckPlay False, ClickResume 7] Impl
   = Inr (loaded_a\<lparr>playTree := [(''/a'', False)], playNode := ''play_7'', is_playing := True,
        spawned := [(''rosbag'', [Text ''play'', Text ''a.bag'', Text ''-q'', Text ''--clock'',
           Text ''-r'', Number 1, Text ''-s'', Number 0, Text ''--topics'',
           Text ''__name:=play_7''])]\<rparr>)"
  by (simp add: Impl_def loaded_a_def bag_a_def open_slot_unfold loadFile_def spin_values
      checkPlay_def clickResume_def play_def startDetached_def decimal_7 Let_def)

section \<open>Opening a file\<close>

text \<open>
  Claim C7, as the code has it. After \<open>open\<close> with a file name and a readable file, the
  play tree holds the topic of each connection of the file, in order and all checked, and
  the file path is the new name. The time spin box and the slider keep their values: the
  position is not reset.
\<close>

theorem open_replaces_play_tree:
  assumes "fileName \<noteq> []"
  shows "\<exists>s'. open_slot fileName (Some view) s = Inr s'
     \<and> playTree s' = map (\<lambda>topic. (topic, True)) (view_connections view)
     \<and> filePath s' = fileName
     \<and> timeSpin s' = timeSpin s \<and> timeSlider s' = timeSlider s"
  using assms by (simp add: open_slot_unfold loadFile_def Let_def stop_def startDetached_def)

theorem open_replaces_play_tree_witness:
  "''b.bag'' \<noteq> []
   \<and> (\<exists>s'. open_slot ''b.bag'' (Some bag_b) (Impl\<lparr>timeSpin := 5\<rparr>) = Inr s'
     \<and> playTree s' = [(''/b'', True), (''/c'', True)]
     \<and> filePath s' = ''b.bag''
     \<and> timeSpin s' = 5 \<and> timeSlider s' = 0)"
proof -
  have n: "''b.bag'' \<noteq> []" by simp
  from open_replaces_play_tree [OF n, of bag_b "Impl\<lparr>timeSpin := 5\<rparr>"] n show ?thesis
    by (simp add: bag_b_def Impl_def)
qed

text \<open>
  Claim C7 as stated fails for the position: a file is opened, the time spin box is set to
  5 seconds, and a second file is opened. The play tree is the second file's, and the
  position is still 5.
\<close>

theorem open_keeps_position:
  "run [Open ''a.bag'' (Some bag_a), TimeSpinEdited 5, Open ''b.bag'' (Some bag_b)] Impl
   = Inr (Impl\<lparr>playTree := [(''/b'', True), (''/c'', True)], endTimeSpin := 20,
        timeSpin := 5, timeSlider := 50, filePath := ''b.bag'', end_time := 20000000000\<rparr>)"
  by (simp add: Impl_def bag_a_def bag_b_def open_slot_unfold loadFile_def spin_values
      timeSpin_setValue_def on_timeSpin_valueChanged_def ddiv_def dsub_def double_of_def
      fl_values trunc_def qBound_def)

text \<open>
  Claim C8. A file A is opened and played at time \<open>now\<close> (the pause button plays, since
  nothing is playing after \<open>open\<close>), so the play node is \<^verbatim>\<open>play_<now>\<close>. Then \<open>open\<close> of a
  file B runs four statements, and the states they leave are, in order: after the first
  (\<open>stop\<close>) the kill of \<^verbatim>\<open>/play_<now>\<close> is the last launch and the play tree still holds A's
  topics; after the second (the timer is stopped) likewise; after the third (\<open>loadFile\<close>) the
  tree holds B's topics and nothing was launched after the kill; the fourth is the state
  \<open>open\<close> returns, with the play flag false. The kill is issued two statements before the
  tree is replaced.
\<close>

theorem open_stops_before_loading:
  assumes "fileA \<noteq> []" "fileB \<noteq> []"
    and "open_slot fileA (Some viewA) s0 = Inr s1"
  shows "clickResume now s1 = play now s1
    \<and> is_playing (play now s1)
    \<and> playNode (play now s1) = ''play_'' @ decimal now
    \<and> playTree (play now s1) = map (\<lambda>topic. (topic, True)) (view_connections viewA)
    \<and> (\<exists>t1 t2 t3 t4.
          states_after (open_statements fileB (Some viewB)) (play now s1) = [t1, t2, t3, t4]
        \<and> open_slot fileB (Some viewB) (play now s1) = Inr t4
        \<and> spawned t1 = spawned (play now s1)
             @ [(''rosnode'', [Text ''kill'', Text (''/play_'' @ decimal now)])]
        \<and> playTree t1 = map (\<lambda>topic. (topic, True)) (view_connections viewA)
        \<and> spawned t2 = spawned t1
        \<and> playTree t2 = map (\<lambda>topic. (topic, True)) (view_connections viewA)
        \<and> spawned t3 = spawned t1
        \<and> playTree t3 = map (\<lambda>topic. (topic, True)) (view_connections viewB)
        \<and> spawned t4 = spawned t1
        \<and> playTree t4 = map (\<lambda>topic. (topic, True)) (view_connections viewB)
        \<and> \<not> is_playing t4)"
proof -
  from assms(1,3) have s1: "filePath s1 = fileA"
    "playTree s1 = map (\<lambda>topic. (topic, True)) (view_connections viewA)"
    "\<not> is_playing s1"
    by (cases "is_playing s0"; auto simp: open_slot_unfold loadFile_def Let_def stop_def
        startDetached_def)+
  then have r: "clickResume now s1 = play now s1"
    by (simp add: clickResume_def)
  define s2 where "s2 = play now s1"
  from s1 assms(1) have p: "is_playing s2"
    "playNode s2 = ''play_'' @ decimal now"
    "playTree s2 = map (\<lambda>topic. (topic, True)) (view_connections viewA)"
    by (simp_all add: s2_def play_def Let_def startDetached_def)
  define t1 where "t1 = stop s2"
  define t2 where "t2 = t1\<lparr>timer_active := False\<rparr>"
  obtain t3 where t3: "loadFile fileB (Some viewB) t2 = Inr t3"
    by (simp add: loadFile_def Let_def)
  define t4 where "t4 = t3\<lparr>timer_active := True\<rparr>"
  have tr: "states_after (open_statements fileB (Some viewB)) s2 = [t1, t2, t3, t4]"
    using p(1) assms(2) t3 by (simp add: open_statements_def t1_def t2_def t4_def)
  have res: "open_slot fileB (Some viewB) s2 = Inr t4"
    using p(1) assms(2) t3 by (simp add: open_slot_def open_statements_def t1_def t2_def t4_def)
  have f1: "spawned t1 = spawned s2
             @ [(''rosnode'', [Text ''kill'', Text (''/play_'' @ decimal now)])]"
    "playTree t1 = map (\<lambda>topic. (topic, True)) (view_connections viewA)"
    "\<not> is_playing t1"
    using p by (simp_all add: t1_def stop_def startDetached_def)
  have f2: "spawned t2 = spawned t1"
    "playTree t2 = map (\<lambda>topic. (topic, True)) (view_connections viewA)"
    "\<not> is_playing t2"
    using f1 by (simp_all add: t2_def)
  have f3: "spawned t3 = spawned t1"
    "playTree t3 = map (\<lambda>topic. (topic, True)) (view_connections viewB)"
    "\<not> is_playing t3"
    using t3 f2 by (auto simp: loadFile_def Let_def)
  have f4: "spawned t4 = spawned t1"
    "playTree t4 = map (\<lambda>topic. (topic, True)) (view_connections viewB)"
    "\<not> is_playing t4"
    using f3 by (simp_all add: t4_def)
  from tr res f1 f2 f3 f4 have "\<exists>t1 t2 t3 t4.
          states_after (open_statements fileB (Some viewB)) s2 = [t1, t2, t3, t4]
        \<and> open_slot fileB (Some viewB) s2 = Inr t4
        \<and> spawned t1 = spawned s2
             @ [(''rosnode'', [Text ''kill'', Text (''/play_'' @ decimal now)])]
        \<and> playTree t1 = map (\<lambda>topic. (topic, True)) (view_connections viewA)
        \<and> spawned t2 = spawned t1
        \<and> playTree t2 = map (\<lambda>topic. (topic, True)) (view_connections viewA)
        \<and> spawned t3 = spawned t1
        \<and> playTree t3 = map (\<lambda>topic. (topic, True)) (view_connections viewB)
        \<and> spawned t4 = spawned t1
        \<and> playTree t4 = map (\<lambda>topic. (topic, True)) (view_connections viewB)
        \<and> \<not> is_playing t4"
    by blast
  with r p show ?thesis unfolding s2_def by blast
qed

theorem open_stops_before_loading_witness:
  "''a.bag'' \<noteq> [] \<and> ''b.bag'' \<noteq> []
   \<and> open_slot ''a.bag'' (Some bag_a) Impl = Inr loaded_a
   \<and> clickResume 7 loaded_a = play 7 loaded_a
   \<and> is_playing (play 7 loaded_a)
   \<and> playNode (play 7 loaded_a) = ''play_7''
   \<and> (\<exists>t1 t2 t3 t4.
          states_after (open_statements ''b.bag'' (Some bag_b)) (play 7 loaded_a)
            = [t1, t2, t3, t4]
        \<and> open_slot ''b.bag'' (Some bag_b) (play 7 loaded_a) = Inr t4
        \<and> spawned t1 = spawned (play 7 loaded_a)
             @ [(''rosnode'', [Text ''kill'', Text ''/play_7''])]
        \<and> playTree t1 = [(''/a'', True)]
        \<and> spawned t2 = spawned t1
        \<and> playTree t2 = [(''/a'', True)]
        \<and> spawned t3 = spawned t1
        \<and> playTree t3 = [(''/b'', True), (''/c'', True)]
        \<and> spawned t4 = spawned t1
        \<and> playTree t4 = [(''/b'', True), (''/c'', True)]
        \<and> \<not> is_playing t4)"
proof -
  have o: "open_slot ''a.bag'' (Some bag_a) Impl = Inr loaded_a"
    by (simp add: Impl_def loaded_a_def bag_a_def open_slot_unfold loadFile_def spin_values)
  have n: "''a.bag'' \<noteq> []" "''b.bag'' \<noteq> []" by simp_all
  have v: "view_connections bag_a = [''/a'']" "view_connections bag_b = [''/b'', ''/c'']"
    by (simp_all add: bag_a_def bag_b_def)
  have e: "''play_'' @ ''7'' = ''play_7''" "''/play_'' @ ''7'' = ''/play_7''"
    "map (\<lambda>topic. (topic, True)) [''/a''] = [(''/a'', True)]"
    "map (\<lambda>topic. (topic, True)) [''/b'', ''/c''] = [(''/b'', True), (''/c'', True)]"
    by simp_all
  from open_stops_before_loading [OF n o, of 7 bag_b] n o show ?thesis
    unfolding decimal_7 v e by blast
qed

section \<open>What every step preserves\<close>

lemma on_timeSpin_valueChanged_Inr:
  "on_timeSpin_valueChanged v s = Inr s' \<Longrightarrow> \<exists>x. s' = s\<lparr>timeSlider := x\<rparr>"
  by (auto simp: on_timeSpin_valueChanged_def ddiv_def Let_def split: option.splits)

lemma on_timeSlider_valueChanged_Inr:
  "on_timeSlider_valueChanged v s = Inr s' \<Longrightarrow> \<exists>x. s' = s\<lparr>timeSpin := x\<rparr>"
  by (auto simp: on_timeSlider_valueChanged_def Let_def split: double.splits)

lemma timeSpin_setValue_Inr:
  "timeSpin_setValue v s = Inr s' \<Longrightarrow> \<exists>x y. s' = s\<lparr>timeSpin := x, timeSlider := y\<rparr>"
proof (cases "spin_value v = timeSpin s")
  case True
  assume "timeSpin_setValue v s = Inr s'"
  with True have "s' = s" by (simp add: timeSpin_setValue_def)
  then have "s' = s\<lparr>timeSpin := timeSpin s, timeSlider := timeSlider s\<rparr>" by simp
  then show ?thesis by blast
next
  case False
  assume "timeSpin_setValue v s = Inr s'"
  with False have "on_timeSpin_valueChanged (spin_value v) (s\<lparr>timeSpin := spin_value v\<rparr>) = Inr s'"
    by (simp add: timeSpin_setValue_def)
  from on_timeSpin_valueChanged_Inr [OF this] show ?thesis by auto
qed

lemma timeSlider_setValue_Inr:
  "timeSlider_setValue v s = Inr s' \<Longrightarrow> \<exists>x y. s' = s\<lparr>timeSpin := x, timeSlider := y\<rparr>"
proof (cases "qBound (timeSlider_minimum s) v (timeSlider_maximum s) = timeSlider s")
  case True
  assume "timeSlider_setValue v s = Inr s'"
  with True have "s' = s" by (simp add: timeSlider_setValue_def)
  then have "s' = s\<lparr>timeSpin := timeSpin s, timeSlider := timeSlider s\<rparr>" by simp
  then show ?thesis by blast
next
  case False
  assume "timeSlider_setValue v s = Inr s'"
  with False obtain x where "s' = s\<lparr>timeSlider := qBound (timeSlider_minimum s) v (timeSlider_maximum s), timeSpin := x\<rparr>"
    using on_timeSlider_valueChanged_Inr by (fastforce simp: timeSlider_setValue_def Let_def)
  then show ?thesis
    by (intro exI [of _ x] exI [of _ "qBound (timeSlider_minimum s) v (timeSlider_maximum s)"]) simp
qed

lemma flags_inv_time: "flags_inv (s\<lparr>timeSpin := x, timeSlider := y\<rparr>) = flags_inv s"
  by (simp add: flags_inv_def)

lemma flags_inv_play: "flags_inv s \<Longrightarrow> flags_inv (play now s)"
  by (simp add: flags_inv_def play_def startDetached_def Let_def)

lemma flags_inv_stop: "flags_inv s \<Longrightarrow> flags_inv (stop s)"
  by (simp add: flags_inv_def stop_def startDetached_def)

lemma flags_inv_setChecked: "flags_inv s \<Longrightarrow> flags_inv (recordAct_setChecked b now s)"
  by (cases b; cases "recordTree s = []")
     (auto simp: flags_inv_def recordAct_setChecked_False recordAct_setChecked_True
        record_slot_True_items record_slot_True_empty startDetached_def)

lemma flags_inv_timer_active: "flags_inv (s\<lparr>timer_active := x\<rparr>) = flags_inv s"
  by (simp add: flags_inv_def)

lemma flags_inv_loadFile: "loadFile fileName bagfile s = Inr s' \<Longrightarrow> flags_inv s' = flags_inv s"
  by (cases bagfile) (auto simp: loadFile_def Let_def flags_inv_def)

lemma flags_inv_saveFile: "flags_inv (saveFile fileName s) = flags_inv s"
  by (simp add: saveFile_def Let_def flags_inv_def startDetached_def)

lemma flags_inv_open:
  assumes "flags_inv s" "open_slot fileName bagfile s = Inr s'"
  shows "flags_inv s'"
proof -
  define s2 where "s2 = (if is_playing s then stop s else s)\<lparr>timer_active := False\<rparr>"
  have s2: "flags_inv s2"
    using assms(1) by (simp add: s2_def flags_inv_timer_active flags_inv_stop)
  show ?thesis
  proof (cases "fileName = []")
    case True
    with assms(2) have "s' = s2" by (simp add: open_slot_unfold Let_def s2_def)
    with s2 show ?thesis by simp
  next
    case False
    with assms(2) obtain s3 where s3: "loadFile fileName bagfile s2 = Inr s3"
      "s' = s3\<lparr>timer_active := True\<rparr>"
      by (auto simp: open_slot_unfold Let_def s2_def split: sum.splits)
    from flags_inv_loadFile [OF s3(1)] s2 s3(2) show ?thesis
      by (simp add: flags_inv_timer_active)
  qed
qed

lemma flags_inv_save: "flags_inv s \<Longrightarrow> flags_inv (save fileName s)"
  by (simp add: save_def Let_def flags_inv_timer_active flags_inv_saveFile flags_inv_stop)

lemma flags_inv_config: "flags_inv (config a l c r s) = flags_inv s"
  by (simp add: config_def flags_inv_def)

lemma flags_inv_checkRecord: "flags_inv (checkRecord c s) = flags_inv s"
  by (simp add: checkRecord_def flags_inv_def)

lemma flags_inv_checkPlay: "flags_inv (checkPlay c s) = flags_inv s"
  by (simp add: checkPlay_def flags_inv_def)

lemma flags_inv_trees:
  "flags_inv (s\<lparr>playTree := p\<rparr>) = flags_inv s"
  "flags_inv (s\<lparr>recordTree := q\<rparr>) = flags_inv s"
  by (simp_all add: flags_inv_def)

lemma flags_inv_timer: "flags_inv (on_timer_timeout m s) = flags_inv s"
  by (cases m) (simp_all add: on_timer_timeout_def flags_inv_def)

lemma flags_inv_step: "flags_inv s \<Longrightarrow> step e s = Inr s' \<Longrightarrow> flags_inv s'"
proof (cases e)
  case (Open fileName bagfile)
  assume "flags_inv s" "step e s = Inr s'"
  with Open show ?thesis by (simp add: flags_inv_open)
next
  case (Save fileName)
  assume "flags_inv s" "step e s = Inr s'"
  with Save show ?thesis by (auto simp: flags_inv_save)
next
  case (RecordToggled now)
  assume "flags_inv s" "step e s = Inr s'"
  with RecordToggled show ?thesis
    by (auto simp: recordAct_toggle_def flags_inv_setChecked)
next
  case (ClickPlay now)
  assume a: "flags_inv s" "step e s = Inr s'"
  with ClickPlay obtain s1 where s1: "timeSpin_setValue 0 s = Inr s1" "s' = play now s1"
    by (auto simp: clickPlay_def split: sum.splits)
  from timeSpin_setValue_Inr [OF s1(1)] a(1) have "flags_inv s1"
    by (auto simp: flags_inv_time)
  with s1(2) show ?thesis by (simp add: flags_inv_play)
next
  case (ClickResume now)
  assume "flags_inv s" "step e s = Inr s'"
  with ClickResume show ?thesis
    by (auto simp: clickResume_def flags_inv_play flags_inv_stop)
next
  case (ClickStop now)
  assume "flags_inv s" "step e s = Inr s'"
  with ClickStop show ?thesis
    by (auto simp: clickStop_def flags_inv_setChecked flags_inv_stop)
next
  case (Config a l c r)
  assume "flags_inv s" "step e s = Inr s'"
  with Config show ?thesis by (auto simp: flags_inv_config)
next
  case (CheckRecord c)
  assume "flags_inv s" "step e s = Inr s'"
  with CheckRecord show ?thesis by (auto simp: flags_inv_checkRecord)
next
  case (CheckPlay c)
  assume "flags_inv s" "step e s = Inr s'"
  with CheckPlay show ?thesis by (auto simp: flags_inv_checkPlay)
next
  case (PlayItemClicked i)
  assume "flags_inv s" "step e s = Inr s'"
  with PlayItemClicked show ?thesis by (auto simp: flags_inv_trees)
next
  case (RecordItemClicked i)
  assume "flags_inv s" "step e s = Inr s'"
  with RecordItemClicked show ?thesis by (auto simp: flags_inv_trees)
next
  case (TimerTimeout m)
  assume "flags_inv s" "step e s = Inr s'"
  with TimerTimeout show ?thesis by (auto simp: flags_inv_timer)
next
  case (TimeSpinEdited v)
  assume a: "flags_inv s" "step e s = Inr s'"
  with TimeSpinEdited have "timeSpin_setValue v s = Inr s'" by simp
  from timeSpin_setValue_Inr [OF this] a(1) show ?thesis
    by (auto simp: flags_inv_time)
next
  case (TimeSliderMoved v)
  assume a: "flags_inv s" "step e s = Inr s'"
  with TimeSliderMoved have "timeSlider_setValue v s = Inr s'" by simp
  from timeSlider_setValue_Inr [OF this] a(1) show ?thesis
    by (auto simp: flags_inv_time)
next
  case (Clock c)
  assume a: "flags_inv s" "step e s = Inr s'"
  with Clock have "timeSpin_setValue (real_of_int (c - begin_time s) / 1000000000) s = Inr s'"
    by (simp add: clockCallback_def)
  from timeSpin_setValue_Inr [OF this] a(1) show ?thesis
    by (auto simp: flags_inv_time)
qed

lemma reachable_flags_inv: "reachable s \<Longrightarrow> flags_inv s"
proof (induction rule: reachable.induct)
  case start
  show ?case by (simp add: flags_inv_def Impl_def)
next
  case (after s e s')
  then show ?case using flags_inv_step by blast
qed

lemma run_reachable: "reachable s \<Longrightarrow> run es s = Inr s' \<Longrightarrow> reachable s'"
proof (induction es arbitrary: s)
  case Nil
  then show ?case by simp
next
  case (Cons e es)
  then show ?case by (auto split: sum.splits intro: reachable.after)
qed


section \<open>The flags in every run\<close>

lemma run_busy:
  "run [TimerTimeout (Some [(''/x'', ''std_msgs/String'')]), RecordToggled 3,
        Open ''a.bag'' (Some bag_a), ClickResume 7] Impl = Inr busy"
  by (simp add: Impl_def busy_def loaded_a_def bag_a_def on_timer_timeout_def
      recordAct_toggle_def recordAct_setChecked_True record_slot_True_items
      open_slot_unfold loadFile_def spin_values clickResume_def play_def
      startDetached_def decimal_3 decimal_7 Let_def)

lemma reachable_busy: "reachable busy"
  using run_reachable [OF reachable.start run_busy] .

text \<open>
  Claim C9, as the code has it. In every state the window reaches, a play flag that is set
  has a non-empty play node name, and a record flag that is set has a non-empty record node
  name. The converse does not hold: no slot ever clears a node name.
\<close>

theorem flags_have_tokens:
  "reachable s \<Longrightarrow>
     (is_playing s \<longrightarrow> playNode s \<noteq> []) \<and> (is_recording s \<longrightarrow> recordNode s \<noteq> [])"
  using reachable_flags_inv [of s] by (simp add: flags_inv_def)

theorem flags_have_tokens_witness:
  "reachable busy \<and> is_playing busy \<and> is_recording busy
   \<and> playNode busy \<noteq> [] \<and> recordNode busy \<noteq> []"
  using flags_have_tokens [OF reachable_busy] reachable_busy
  by (simp add: busy_def)

text \<open>
  Claim C9 as stated fails after a stop: a file is opened, played and stopped. The play flag
  is false and the play node still is \<^verbatim>\<open>play_7\<close>.
\<close>

theorem token_outlives_play:
  "run [Open ''a.bag'' (Some bag_a), ClickResume 7, ClickStop 8] Impl = Inr stopped_a
   \<and> reachable stopped_a
   \<and> \<not> is_playing stopped_a \<and> playNode stopped_a = ''play_7''"
proof -
  have r: "run [Open ''a.bag'' (Some bag_a), ClickResume 7, ClickStop 8] Impl = Inr stopped_a"
    by (simp add: Impl_def stopped_a_def loaded_a_def bag_a_def open_slot_unfold loadFile_def
        spin_values clickResume_def clickStop_def play_def stop_def
        startDetached_def decimal_7 Let_def)
  from run_reachable [OF reachable.start r] r show ?thesis
    by (simp add: stopped_a_def loaded_a_def Impl_def)
qed

text \<open>
  Claim C10. In every state the window reaches, the stop button leaves the play flag and the
  record flag false and the record action unchecked. What it launches is the kill of the
  record node when the window was recording, and then the kill of the play node when it was
  playing.
\<close>

theorem clickStop_cancels_both:
  assumes "reachable s"
  shows "\<not> is_playing (clickStop now s) \<and> \<not> is_recording (clickStop now s)
     \<and> \<not> recordAct_checked (clickStop now s)
     \<and> spawned (clickStop now s) = spawned s
          @ (if is_recording s
             then [(''rosnode'', [Text ''kill'', Text (''/'' @ recordNode s)])] else [])
          @ (if is_playing s
             then [(''rosnode'', [Text ''kill'', Text (''/'' @ playNode s)])] else [])"
  using reachable_flags_inv [OF assms]
  by (auto simp: flags_inv_def clickStop_def stop_def recordAct_setChecked_False
      startDetached_def)

theorem clickStop_cancels_both_witness:
  "reachable busy \<and> is_playing busy \<and> is_recording busy
   \<and> \<not> is_playing (clickStop 9 busy) \<and> \<not> is_recording (clickStop 9 busy)
   \<and> \<not> recordAct_checked (clickStop 9 busy)
   \<and> spawned (clickStop 9 busy) = spawned busy
        @ [(''rosnode'', [Text ''kill'', Text ''/record_3'']),
           (''rosnode'', [Text ''kill'', Text ''/play_7''])]"
  using clickStop_cancels_both [OF reachable_busy, of 9] reachable_busy
  by (simp add: busy_def)

end
